theory Spec2Isabelle
  imports
    Complex_Main
    "HOL-Library.Char_ord"
    "HOL-Library.List_Lexorder"
    "HOL-Library.Sublist"
    "HOL-Library.Multiset"
begin

section \<open>Data model (db.ts, interface Song)\<close>

text \<open>
  A JavaScript \<^verbatim>\<open>number\<close> is modelled as a rational: the finite values, compared and
  subtracted exactly. Strings are character lists. The open-ended \<^verbatim>\<open>metadata\<close> field and
  every value read from an import file is a JSON value; an absent property
  (\<^verbatim>\<open>undefined\<close>) is \<open>None\<close> of \<open>json option\<close>.
\<close>

datatype json =
    JNull
  | JBool bool
  | JNum rat
  | JStr string
  | JArr "json list"
  | JObj "(string \<times> json) list"

record Duration =
  milliseconds :: rat

text \<open>
  The extension builds the album as \<^verbatim>\<open>{ uri: song.album?.uri, name: song.album?.name }\<close>,
  and the view code reads it with \<^verbatim>\<open>a.album?.name || ""\<close>: both members may be undefined.
\<close>

record Album =
  album_name :: "string option"
  album_uri :: "string option"

record Artist =
  artist_uri :: string
  artist_name :: string

record Image =
  image_url :: string
  image_label :: string

record Song =
  uid :: string
  uri :: string
  name :: string
  duration :: Duration
  album :: Album
  artists :: "Artist list"
  metadata :: json
  images :: "Image list"
  listenDate :: rat

section \<open>The object store "history" (db.ts, openDB)\<close>

text \<open>
  \<^verbatim>\<open>createObjectStore("history", { keyPath: "uid" })\<close> with
  \<^verbatim>\<open>createIndex("uri", "uri", { unique: true })\<close>: the rows of the store, kept in ascending
  order of the primary key \<open>uid\<close>, as \<^verbatim>\<open>getAll\<close> returns them (keys are compared
  character by character). A closed connection makes
  \<^verbatim>\<open>db.transaction\<close> throw; that is the storage failure of the model.
\<close>

record IDBDatabase =
  conn_closed :: bool
  history :: "Song list"

datatype 'a promise = Resolved 'a | Rejected string

definition ConstraintError :: string where
  "ConstraintError = ''ConstraintError''"

definition InvalidStateError :: string where
  "InvalidStateError = ''InvalidStateError''"

text \<open>\<^verbatim>\<open>index.get(uri)\<close>: the row with the lowest primary key among the rows with that uri.\<close>

definition index_get :: "string \<Rightarrow> Song list \<Rightarrow> Song option" where
  "index_get u rs = find (\<lambda>r. uri r = u) rs"

text \<open>
  \<^verbatim>\<open>objectStore.add(song)\<close>: fails with a ConstraintError when a row with the same primary
  key exists or when the unique index on uri would be violated.
\<close>

definition store_add :: "Song \<Rightarrow> Song list \<Rightarrow> string + Song list" where
  "store_add s rs =
     (if uid s \<in> set (map uid rs) then Inl ConstraintError
      else if uri s \<in> set (map uri rs) then Inl ConstraintError
      else Inr (insort_key uid s rs))"

text \<open>
  \<^verbatim>\<open>objectStore.put(song)\<close>: replaces the row with the same primary key (or inserts);
  the unique index is checked against the other rows.
\<close>

definition store_put :: "Song \<Rightarrow> Song list \<Rightarrow> string + Song list" where
  "store_put s rs =
     (let others = filter (\<lambda>r. uid r \<noteq> uid s) rs in
      if uri s \<in> set (map uri others) then Inl ConstraintError
      else Inr (insort_key uid s others))"

text \<open>\<^verbatim>\<open>objectStore.delete(uid)\<close>: removes the row with that key; succeeds when there is none.\<close>

definition store_delete :: "string \<Rightarrow> Song list \<Rightarrow> Song list" where
  "store_delete u rs = filter (\<lambda>r. uid r \<noteq> u) rs"

section \<open>saveSongToDB (db.ts)\<close>

text \<open>
  One readwrite transaction: look the uri up in the index; when a row is found, set its
  listenDate to the incoming one and put it back; otherwise add the incoming song. A failed
  request rejects the promise and, its error not being handled, aborts the transaction: the
  store keeps its rows.
\<close>

definition saveSongToDB :: "IDBDatabase \<Rightarrow> Song \<Rightarrow> IDBDatabase \<times> unit promise" where
  "saveSongToDB db song =
     (if conn_closed db then (db, Rejected InvalidStateError)
      else
        (case index_get (uri song) (history db) of
           Some foundSong \<Rightarrow>
             (case store_put (foundSong\<lparr>listenDate := listenDate song\<rparr>) (history db) of
                Inl e \<Rightarrow> (db, Rejected e)
              | Inr rs \<Rightarrow> (db\<lparr>history := rs\<rparr>, Resolved ()))
         | None \<Rightarrow>
             (case store_add song (history db) of
                Inl e \<Rightarrow> (db, Rejected e)
              | Inr rs \<Rightarrow> (db\<lparr>history := rs\<rparr>, Resolved ()))))"

text \<open>A sequence of song changes, each saved in turn (extension.tsx).\<close>

definition saveAll :: "IDBDatabase \<Rightarrow> Song list \<Rightarrow> IDBDatabase" where
  "saveAll db songs = foldl (\<lambda>d s. fst (saveSongToDB d s)) db songs"

text \<open>What IndexedDB maintains for the store: key order, unique keys, unique uris.\<close>

definition store_inv :: "Song list \<Rightarrow> bool" where
  "store_inv rs \<longleftrightarrow> sorted (map uid rs) \<and> distinct (map uid rs) \<and> distinct (map uri rs)"

section \<open>getHistoryFromDB, deleteSongFromDB (db.ts)\<close>

definition getHistoryFromDB :: "IDBDatabase \<Rightarrow> Song list promise" where
  "getHistoryFromDB db =
     (if conn_closed db then Rejected InvalidStateError else Resolved (history db))"

text \<open>
  The result of an operation that also shows notifications: the store afterwards, how the
  returned promise settles, and the texts passed to \<^verbatim>\<open>Spicetify.showNotification\<close>, in order.
\<close>

definition deleteSongFromDB ::
    "IDBDatabase \<Rightarrow> string \<Rightarrow> IDBDatabase \<times> unit promise \<times> string list" where
  "deleteSongFromDB db u =
     (if conn_closed db then (db, Rejected InvalidStateError, [''Deleting song...''])
      else (db\<lparr>history := store_delete u (history db)\<rparr>, Resolved (),
            [''Deleting song...'', ''Song deleted'']))"

section \<open>Array.prototype.sort with a comparator\<close>

text \<open>
  The sort is stable: an element is placed before the first element of the sorted rest that
  it does not compare greater than, so elements that compare equal keep their input order.
\<close>

fun js_insert :: "('a \<Rightarrow> 'a \<Rightarrow> rat) \<Rightarrow> 'a \<Rightarrow> 'a list \<Rightarrow> 'a list" where
  "js_insert cmp x [] = [x]"
| "js_insert cmp x (y # ys) = (if cmp x y \<le> 0 then x # y # ys else y # js_insert cmp x ys)"

definition js_sort :: "('a \<Rightarrow> 'a \<Rightarrow> rat) \<Rightarrow> 'a list \<Rightarrow> 'a list" where
  "js_sort cmp xs = foldr (js_insert cmp) xs []"

section \<open>exportHistoryAsFile (db.ts)\<close>

text \<open>
  What a caller and the user can observe of an export: how the returned promise settles,
  the notifications shown, and the array that is serialised into the downloaded file
  (\<open>None\<close> when no download is triggered).
\<close>

record ExportOutcome =
  returned :: "unit promise"
  notified :: "string list"
  downloaded :: "Song list option"

definition exportHistoryAsFile :: "IDBDatabase \<Rightarrow> ExportOutcome" where
  "exportHistoryAsFile db =
     (case getHistoryFromDB db of
        Rejected e \<Rightarrow>
          \<lparr>returned = Resolved (),
           notified = [''Exporting history...'', ''Failed to export history''],
           downloaded = None\<rparr>
      | Resolved hist \<Rightarrow>
          if length hist = 0 then
            \<lparr>returned = Resolved (),
             notified = [''Exporting history...'', ''No history to export''],
             downloaded = None\<rparr>
          else
            \<lparr>returned = Resolved (),
             notified = [''Exporting history...'', ''History exported''],
             downloaded = Some (js_sort (\<lambda>a b. listenDate a - listenDate b) hist)\<rparr>)"

section \<open>The view: sortSongs and handleSearchChange (app.tsx)\<close>

record SortConfig =
  key :: string
  ascending :: bool

text \<open>\<^verbatim>\<open>a.album?.name || ""\<close>\<close>

definition name_or_empty :: "Album \<Rightarrow> string" where
  "name_or_empty al = (case album_name al of None \<Rightarrow> [] | Some n \<Rightarrow> n)"

text \<open>
  The comparator of sortSongs. \<^verbatim>\<open>String.prototype.localeCompare\<close> belongs to the host and
  is a parameter.
\<close>

definition compareSongs ::
    "(string \<Rightarrow> string \<Rightarrow> int) \<Rightarrow> SortConfig \<Rightarrow> Song \<Rightarrow> Song \<Rightarrow> rat" where
  "compareSongs localeCompare sortConfig a b =
     (if key sortConfig = ''name'' then of_int (localeCompare (name a) (name b))
      else if key sortConfig = ''album'' then
        of_int (localeCompare (name_or_empty (album a)) (name_or_empty (album b)))
      else if key sortConfig = ''date'' then listenDate a - listenDate b
      else if key sortConfig = ''duration'' then
        milliseconds (duration a) - milliseconds (duration b)
      else 0)"

definition sortSongs ::
    "(string \<Rightarrow> string \<Rightarrow> int) \<Rightarrow> Song list \<Rightarrow> SortConfig \<Rightarrow> Song list" where
  "sortSongs localeCompare songs sortConfig =
     (let sortedSongs = js_sort (compareSongs localeCompare sortConfig) songs in
      if \<not> ascending sortConfig then rev sortedSongs else sortedSongs)"

text \<open>The state of the App component that the handlers read.\<close>

record App =
  app_db :: "IDBDatabase option"
  app_songs :: "Song list"
  sortConfig :: SortConfig

definition handleExportHistory :: "App \<Rightarrow> ExportOutcome" where
  "handleExportHistory app =
     (case app_db app of
        Some db \<Rightarrow> exportHistoryAsFile db
      | None \<Rightarrow> \<lparr>returned = Resolved (), notified = [], downloaded = None\<rparr>)"

text \<open>\<^verbatim>\<open>s.includes(q)\<close>: q occurs in s as a contiguous run of characters.\<close>

fun js_includes :: "string \<Rightarrow> string \<Rightarrow> bool" where
  "js_includes [] q = (q = [])"
| "js_includes (c # s) q = (prefix q (c # s) \<or> js_includes s q)"

text \<open>
  The predicate of the filter in handleSearchChange; \<^verbatim>\<open>String.prototype.toLowerCase\<close>
  belongs to the host and is a parameter. An undefined album name makes the second
  disjunct undefined, which is falsy.
\<close>

definition songMatches :: "(string \<Rightarrow> string) \<Rightarrow> string \<Rightarrow> Song \<Rightarrow> bool" where
  "songMatches toLowerCase query song \<longleftrightarrow>
     js_includes (toLowerCase (name song)) query \<or>
     (case album_name (album song) of
        None \<Rightarrow> False
      | Some n \<Rightarrow> js_includes (toLowerCase n) query) \<or>
     list_ex (\<lambda>artist. js_includes (toLowerCase (artist_name artist)) query) (artists song)"

text \<open>The list handed to setFilteredSongs once the debounce timer fires.\<close>

definition handleSearchChange :: "(string \<Rightarrow> string) \<Rightarrow> Song list \<Rightarrow> string \<Rightarrow> Song list" where
  "handleSearchChange toLowerCase songs val =
     (let query = toLowerCase val in filter (songMatches toLowerCase query) songs)"

text \<open>
  The filter as the specification words it: the query is a case-insensitive substring of
  the title, of the album name, or of some artist's name.
\<close>

definition ci_substring :: "(string \<Rightarrow> string) \<Rightarrow> string \<Rightarrow> string \<Rightarrow> bool" where
  "ci_substring toLowerCase q s \<longleftrightarrow> sublist (toLowerCase q) (toLowerCase s)"

definition spec_matches :: "(string \<Rightarrow> string) \<Rightarrow> string \<Rightarrow> Song \<Rightarrow> bool" where
  "spec_matches toLowerCase q song \<longleftrightarrow>
     ci_substring toLowerCase q (name song) \<or>
     (\<exists>n. album_name (album song) = Some n \<and> ci_substring toLowerCase q n) \<or>
     (\<exists>a \<in> set (artists song). ci_substring toLowerCase q (artist_name a))"

section \<open>isValidSong (db.ts)\<close>

datatype js_type = T_undefined | T_object | T_boolean | T_number | T_string

fun typeof :: "json option \<Rightarrow> js_type" where
  "typeof None = T_undefined"
| "typeof (Some JNull) = T_object"
| "typeof (Some (JBool b)) = T_boolean"
| "typeof (Some (JNum n)) = T_number"
| "typeof (Some (JStr s)) = T_string"
| "typeof (Some (JArr xs)) = T_object"
| "typeof (Some (JObj kvs)) = T_object"

datatype js_error = TypeError | SyntaxError | InvalidSongData

text \<open>
  \<^verbatim>\<open>v.k\<close> for a value that is not null: the member of a parsed object (its keys are
  distinct); a primitive or an array has none of the members this program reads.
\<close>

definition get_prop :: "json \<Rightarrow> string \<Rightarrow> json option" where
  "get_prop v k = (case v of JObj kvs \<Rightarrow> map_of kvs k | _ \<Rightarrow> None)"

text \<open>\<^verbatim>\<open>v?.k\<close>: undefined when v is undefined or null.\<close>

definition opt_prop :: "json option \<Rightarrow> string \<Rightarrow> json option" where
  "opt_prop v k = (case v of None \<Rightarrow> None | Some JNull \<Rightarrow> None | Some obj \<Rightarrow> get_prop obj k)"

text \<open>
  \<^verbatim>\<open>xs.every(f)\<close>, for a callback that may throw: stops at the first element for which the
  callback throws or returns false.
\<close>

fun every :: "(json \<Rightarrow> js_error + bool) \<Rightarrow> json list \<Rightarrow> js_error + bool" where
  "every f [] = Inr True"
| "every f (x # xs) =
     (case f x of
        Inl e \<Rightarrow> Inl e
      | Inr ok \<Rightarrow> if ok then every f xs else Inr False)"

text \<open>The two callbacks; reading a member of null throws a TypeError.\<close>

definition artist_ok :: "json \<Rightarrow> js_error + bool" where
  "artist_ok artist =
     (case artist of
        JNull \<Rightarrow> Inl TypeError
      | _ \<Rightarrow> Inr (typeof (get_prop artist ''name'') = T_string \<and>
                 typeof (get_prop artist ''uri'') = T_string))"

definition image_ok :: "json \<Rightarrow> js_error + bool" where
  "image_ok img =
     (case img of
        JNull \<Rightarrow> Inl TypeError
      | _ \<Rightarrow> Inr (typeof (get_prop img ''label'') = T_string \<and>
                 typeof (get_prop img ''url'') = T_string))"

text \<open>The conjunction of isValidSong, evaluated left to right with short circuit.\<close>

definition isValidSong :: "json \<Rightarrow> js_error + bool" where
  "isValidSong song =
     (case song of
        JNull \<Rightarrow> Inl TypeError
      | _ \<Rightarrow>
        if typeof (get_prop song ''uid'') \<noteq> T_string then Inr False
        else if typeof (get_prop song ''uri'') \<noteq> T_string then Inr False
        else if typeof (get_prop song ''name'') \<noteq> T_string then Inr False
        else if typeof (opt_prop (get_prop song ''duration'') ''milliseconds'') \<noteq> T_number
          then Inr False
        else if typeof (opt_prop (get_prop song ''album'') ''name'') \<noteq> T_string then Inr False
        else if typeof (opt_prop (get_prop song ''album'') ''uri'') \<noteq> T_string then Inr False
        else
          (case get_prop song ''artists'' of
             Some (JArr arts) \<Rightarrow>
               (case every artist_ok arts of
                  Inl e \<Rightarrow> Inl e
                | Inr ok \<Rightarrow>
                    if \<not> ok then Inr False
                    else if typeof (get_prop song ''listenDate'') \<noteq> T_number then Inr False
                    else
                      (case get_prop song ''images'' of
                         Some (JArr imgs) \<Rightarrow>
                           (case every image_ok imgs of
                              Inl e \<Rightarrow> Inl e
                            | Inr ok' \<Rightarrow>
                                if \<not> ok' then Inr False
                                else Inr (typeof (get_prop song ''metadata'') = T_object \<and>
                                          get_prop song ''metadata'' \<noteq> Some JNull))
                       | _ \<Rightarrow> Inr False))
           | _ \<Rightarrow> Inr False))"

section \<open>importHistoryAsFile (db.ts)\<close>

text \<open>
  The row that \<^verbatim>\<open>objectStore.add(song)\<close> stores for an object that passed isValidSong, read
  through the members of the Song interface.
\<close>

definition str_of :: "json option \<Rightarrow> string" where
  "str_of v = (case v of Some (JStr s) \<Rightarrow> s | _ \<Rightarrow> [])"

definition num_of :: "json option \<Rightarrow> rat" where
  "num_of v = (case v of Some (JNum n) \<Rightarrow> n | _ \<Rightarrow> 0)"

definition arr_of :: "json option \<Rightarrow> json list" where
  "arr_of v = (case v of Some (JArr xs) \<Rightarrow> xs | _ \<Rightarrow> [])"

definition song_of_json :: "json \<Rightarrow> Song" where
  "song_of_json j =
     \<lparr>uid = str_of (get_prop j ''uid''),
      uri = str_of (get_prop j ''uri''),
      name = str_of (get_prop j ''name''),
      duration = \<lparr>milliseconds = num_of (opt_prop (get_prop j ''duration'') ''milliseconds'')\<rparr>,
      album = \<lparr>album_name = Some (str_of (opt_prop (get_prop j ''album'') ''name'')),
               album_uri = Some (str_of (opt_prop (get_prop j ''album'') ''uri''))\<rparr>,
      artists = map (\<lambda>a. \<lparr>artist_uri = str_of (get_prop a ''uri''),
                          artist_name = str_of (get_prop a ''name'')\<rparr>)
                  (arr_of (get_prop j ''artists'')),
      metadata = (case get_prop j ''metadata'' of Some m \<Rightarrow> m | None \<Rightarrow> JNull),
      images = map (\<lambda>i. \<lparr>image_url = str_of (get_prop i ''url''),
                         image_label = str_of (get_prop i ''label'')\<rparr>)
                 (arr_of (get_prop j ''images'')),
      listenDate = num_of (get_prop j ''listenDate'')\<rparr>"

text \<open>
  \<^verbatim>\<open>for (const song of history)\<close>: an array gives its elements, a string its characters,
  anything else is not iterable.
\<close>

definition iterate :: "json \<Rightarrow> js_error + json list" where
  "iterate v =
     (case v of
        JArr xs \<Rightarrow> Inr xs
      | JStr s \<Rightarrow> Inr (map (\<lambda>c. JStr [c]) s)
      | _ \<Rightarrow> Inl TypeError)"

text \<open>
  The body of the loop: each element is validated and, when valid, its add request is
  queued on the transaction. The loop ends at the first element that is not valid, by a
  throw. The result is the error thrown, if any, and the add requests queued until then.
\<close>

fun import_loop :: "json list \<Rightarrow> js_error option \<times> Song list" where
  "import_loop [] = (None, [])"
| "import_loop (song # rest) =
     (case isValidSong song of
        Inl e \<Rightarrow> (Some e, [])
      | Inr ok \<Rightarrow>
          if \<not> ok then (Some InvalidSongData, [])
          else (case import_loop rest of (thrown, queued) \<Rightarrow> (thrown, song_of_json song # queued)))"

text \<open>
  The transaction runs its queued add requests in order. The first request that fails
  (its error is not handled) aborts the transaction, which undoes every add of it; the
  failed request and each request still pending behind it fire an error event, which
  bubbles to the transaction. An aborted transaction is given with the number of these
  events.
\<close>

datatype txn_result = Committed "Song list" | Aborted nat

fun run_adds :: "Song list \<Rightarrow> Song list \<Rightarrow> txn_result" where
  "run_adds [] rs = Committed rs"
| "run_adds (s # queued) rs =
     (case store_add s rs of
        Inl e \<Rightarrow> Aborted (Suc (length queued))
      | Inr rs' \<Rightarrow> run_adds queued rs')"

text \<open>
  The file is \<open>None\<close> for \<^verbatim>\<open>null\<close>; its text is the value JSON.parse gives, \<open>None\<close> when
  JSON.parse throws a SyntaxError. A throw inside the \<^verbatim>\<open>try\<close> block is caught and notified
  as a failure; it does not abort the transaction, whose queued requests still run, and
  the handlers \<^verbatim>\<open>oncomplete\<close> and \<^verbatim>\<open>onerror\<close> are attached only when the loop ends without
  a throw. The handler \<^verbatim>\<open>onerror\<close> notifies once for each error event.
\<close>

definition importHistoryAsFile ::
    "IDBDatabase \<Rightarrow> json option option \<Rightarrow> IDBDatabase \<times> unit promise \<times> string list" where
  "importHistoryAsFile db file =
     (case file of
        None \<Rightarrow> (db, Resolved (), [''Importing history...''])
      | Some None \<Rightarrow>
          (db, Resolved (), [''Importing history...'', ''Failed to import history''])
      | Some (Some hist) \<Rightarrow>
          if conn_closed db then
            (db, Resolved (), [''Importing history...'', ''Failed to import history''])
          else
            (case iterate hist of
               Inl e \<Rightarrow>
                 (db, Resolved (), [''Importing history...'', ''Failed to import history''])
             | Inr elems \<Rightarrow>
                 (case import_loop elems of
                    (Some e, queued) \<Rightarrow>
                      (case run_adds queued (history db) of
                         Aborted n \<Rightarrow>
                           (db, Resolved (),
                            [''Importing history...'', ''Failed to import history''])
                       | Committed rs \<Rightarrow>
                           (db\<lparr>history := rs\<rparr>, Resolved (),
                            [''Importing history...'', ''Failed to import history'']))
                  | (None, queued) \<Rightarrow>
                      (case run_adds queued (history db) of
                         Aborted n \<Rightarrow>
                           (db, Resolved (),
                            ''Importing history...'' # replicate n ''Failed to import history'')
                       | Committed rs \<Rightarrow>
                           (db\<lparr>history := rs\<rparr>, Resolved (),
                            [''Importing history...'', ''History imported''])))))"

section \<open>Example records and import files\<close>

definition song1 :: Song where
  "song1 = \<lparr>uid = ''u1'', uri = ''spotify:track:a'', name = ''Bohemian Rhapsody'',
     duration = \<lparr>milliseconds = 300000\<rparr>,
     album = \<lparr>album_name = Some ''A Night at the Opera'', album_uri = Some ''spotify:album:x''\<rparr>,
     artists = [\<lparr>artist_uri = ''spotify:artist:q'', artist_name = ''Queen''\<rparr>],
     metadata = JObj [], images = [], listenDate = 1000\<rparr>"

definition song2 :: Song where
  "song2 = \<lparr>uid = ''u2'', uri = ''spotify:track:b'', name = ''Dancing Queen'',
     duration = \<lparr>milliseconds = 60000\<rparr>,
     album = \<lparr>album_name = Some ''Arrival'', album_uri = Some ''spotify:album:y''\<rparr>,
     artists = [\<lparr>artist_uri = ''spotify:artist:abba'', artist_name = ''ABBA''\<rparr>],
     metadata = JObj [], images = [], listenDate = 500\<rparr>"

definition open_empty :: IDBDatabase where
  "open_empty = \<lparr>conn_closed = False, history = []\<rparr>"

definition db_one :: IDBDatabase where
  "db_one = \<lparr>conn_closed = False, history = [song1]\<rparr>"

definition db_two :: IDBDatabase where
  "db_two = \<lparr>conn_closed = False, history = [song1, song2]\<rparr>"

definition song3 :: Song where
  "song3 = \<lparr>uid = ''u3'', uri = ''spotify:track:c'', name = ''Waterloo'',
     duration = \<lparr>milliseconds = 125000\<rparr>,
     album = \<lparr>album_name = None, album_uri = None\<rparr>,
     artists = [], metadata = JObj [], images = [], listenDate = 700\<rparr>"

definition song4 :: Song where
  "song4 = \<lparr>uid = ''u4'', uri = ''spotify:track:d'', name = ''Fernando'',
     duration = \<lparr>milliseconds = 60000\<rparr>,
     album = \<lparr>album_name = Some ''Arrival'', album_uri = Some ''spotify:album:y''\<rparr>,
     artists = [\<lparr>artist_uri = ''spotify:artist:abba'', artist_name = ''ABBA''\<rparr>],
     metadata = JObj [], images = [], listenDate = 900\<rparr>"

text \<open>Lower-casing of the ASCII letters, for the examples.\<close>

definition ascii_lower :: "char \<Rightarrow> char" where
  "ascii_lower c =
     (case map_of (zip ''ABCDEFGHIJKLMNOPQRSTUVWXYZ'' ''abcdefghijklmnopqrstuvwxyz'') c of
        None \<Rightarrow> c
      | Some l \<Rightarrow> l)"

definition ascii_toLowerCase :: "string \<Rightarrow> string" where
  "ascii_toLowerCase s = map ascii_lower s"

text \<open>Comparison of strings by their characters, for the examples.\<close>

definition code_unit_compare :: "string \<Rightarrow> string \<Rightarrow> int" where
  "code_unit_compare a b = (if a < b then - 1 else if a = b then 0 else 1)"

text \<open>The objects of an import file, for the examples.\<close>

definition song_json :: "string \<Rightarrow> string \<Rightarrow> json \<Rightarrow> json \<Rightarrow> json" where
  "song_json u v ms date =
     JObj [(''uid'', JStr u), (''uri'', JStr v), (''name'', JStr ''Waterloo''),
           (''duration'', JObj [(''milliseconds'', ms)]),
           (''album'', JObj [(''name'', JStr ''Waterloo''), (''uri'', JStr ''spotify:album:w'')]),
           (''artists'', JArr [JObj [(''uri'', JStr ''spotify:artist:abba''),
                                     (''name'', JStr ''ABBA'')]]),
           (''metadata'', JObj []),
           (''images'', JArr []),
           (''listenDate'', date)]"

text \<open>The same object without its duration.\<close>

definition song_json_no_duration :: "string \<Rightarrow> string \<Rightarrow> json" where
  "song_json_no_duration u v =
     JObj [(''uid'', JStr u), (''uri'', JStr v), (''name'', JStr ''Waterloo''),
           (''album'', JObj [(''name'', JStr ''Waterloo''), (''uri'', JStr ''spotify:album:w'')]),
           (''artists'', JArr [JObj [(''uri'', JStr ''spotify:artist:abba''),
                                     (''name'', JStr ''ABBA'')]]),
           (''metadata'', JObj []),
           (''images'', JArr []),
           (''listenDate'', JNum 800)]"

text \<open>
  An import file of three valid objects; the second has the uri of the stored \<open>song1\<close>.
\<close>

definition doc_conflict :: json where
  "doc_conflict =
     JArr [song_json ''u3'' ''spotify:track:c'' (JNum 125000) (JNum 700),
           song_json ''u9'' ''spotify:track:a'' (JNum 1000) (JNum 800),
           song_json ''u7'' ''spotify:track:g'' (JNum 2000) (JNum 900)]"


section \<open>Properties of the store primitives\<close>

lemma distinct_map_insort_key:
  "distinct (map g (insort_key f x xs)) \<longleftrightarrow> g x \<notin> set (map g xs) \<and> distinct (map g xs)"
  by (induction xs) (auto simp: set_insort_key)

lemma store_add_inv:
  assumes "store_add s rs = Inr rs'" "store_inv rs"
  shows "store_inv rs'"
  using assms
  by (auto simp: store_add_def store_inv_def distinct_map_insort_key sorted_insort_key
      split: if_splits)

lemma sorted_map_filter: "sorted (map f xs) \<Longrightarrow> sorted (map f (filter P xs))"
  by (induction xs) auto

lemma store_put_inv:
  assumes "store_put s rs = Inr rs'" "store_inv rs"
  shows "store_inv rs'"
proof -
  let ?others = "filter (\<lambda>r. uid r \<noteq> uid s) rs"
  from assms(1) have fresh: "uri s \<notin> set (map uri ?others)" and rs': "rs' = insort_key uid s ?others"
    by (auto simp: store_put_def Let_def split: if_splits)
  from assms(2) have "sorted (map uid ?others)" "distinct (map uid ?others)"
    "distinct (map uri ?others)"
    by (auto simp: store_inv_def sorted_map_filter distinct_map_filter)
  moreover have "uid s \<notin> set (map uid ?others)" by auto
  ultimately show ?thesis
    using fresh unfolding rs' store_inv_def
    by (simp add: distinct_map_insort_key sorted_insort_key del: set_map)
qed

lemma saveSongToDB_inv:
  assumes "store_inv (history db)"
  shows "store_inv (history (fst (saveSongToDB db song)))"
  using assms
  by (auto simp: saveSongToDB_def split: option.splits sum.splits
      dest: store_put_inv store_add_inv)

lemma saveAll_inv: "store_inv (history db) \<Longrightarrow> store_inv (history (saveAll db songs))"
  unfolding saveAll_def
  by (induction songs arbitrary: db) (auto intro: saveSongToDB_inv)

lemma saveSongToDB_unique:
  assumes "distinct (map uri (history db))" "distinct (map uid (history db))"
  shows "distinct (map uri (history (fst (saveSongToDB db song)))) \<and>
         distinct (map uid (history (fst (saveSongToDB db song))))"
proof -
  have add: "distinct (map uri rs') \<and> distinct (map uid rs')"
    if "store_add s (history db) = Inr rs'" for s rs'
    using that assms
    by (auto simp: store_add_def distinct_map_insort_key split: if_splits)
  have put: "distinct (map uri rs') \<and> distinct (map uid rs')"
    if p: "store_put s (history db) = Inr rs'" for s rs'
  proof -
    let ?others = "filter (\<lambda>r. uid r \<noteq> uid s) (history db)"
    from p have fresh: "uri s \<notin> set (map uri ?others)" and rs': "rs' = insort_key uid s ?others"
      by (auto simp: store_put_def Let_def split: if_splits)
    from assms have "distinct (map uid ?others)" "distinct (map uri ?others)"
      by (auto simp: distinct_map_filter)
    moreover have "uid s \<notin> set (map uid ?others)" by auto
    ultimately show ?thesis
      using fresh unfolding rs' by (simp add: distinct_map_insort_key del: set_map)
  qed
  show ?thesis
    using assms add put
    by (auto simp: saveSongToDB_def split: option.splits sum.splits)
qed

text \<open>
  C2. Starting from an empty store, after any sequence of saveSongToDB calls no two rows
  share a uri and no two rows share a uid; and every single saveSongToDB preserves the
  uniqueness of both keys.
\<close>

theorem saveAll_unique:
  "distinct (map uri (history (saveAll \<lparr>conn_closed = c, history = []\<rparr> songs))) \<and>
   distinct (map uid (history (saveAll \<lparr>conn_closed = c, history = []\<rparr> songs))) \<and>
   (distinct (map uri (history db)) \<and> distinct (map uid (history db)) \<longrightarrow>
      distinct (map uri (history (fst (saveSongToDB db song)))) \<and>
      distinct (map uid (history (fst (saveSongToDB db song)))))"
proof -
  have "store_inv (history \<lparr>conn_closed = c, history = []\<rparr>)"
    by (simp add: store_inv_def)
  then have "store_inv (history (saveAll \<lparr>conn_closed = c, history = []\<rparr> songs))"
    by (rule saveAll_inv)
  then show ?thesis
    using saveSongToDB_unique [of db song] by (simp add: store_inv_def)
qed

theorem saveAll_unique_witness:
  "distinct (map uri (history (saveAll open_empty [song1, song2, song1\<lparr>listenDate := 3\<rparr>]))) \<and>
   distinct (map uid (history (saveAll open_empty [song1, song2, song1\<lparr>listenDate := 3\<rparr>]))) \<and>
   history (saveAll open_empty [song1, song2, song1\<lparr>listenDate := 3\<rparr>]) =
     [song1\<lparr>listenDate := 3\<rparr>, song2] \<and>
   distinct (map uri (history db_one)) \<and> distinct (map uid (history db_one)) \<and>
   distinct (map uri (history (fst (saveSongToDB db_one song2)))) \<and>
   distinct (map uid (history (fst (saveSongToDB db_one song2))))"
proof -
  have h: "history (saveAll open_empty [song1, song2, song1\<lparr>listenDate := 3\<rparr>]) =
     [song1\<lparr>listenDate := 3\<rparr>, song2]"
    by (simp add: saveAll_def saveSongToDB_def index_get_def store_add_def store_put_def
        open_empty_def song1_def song2_def)
  have d: "distinct (map uri (history db_one)) \<and> distinct (map uid (history db_one))"
    by (simp add: db_one_def)
  from h d show ?thesis
    using saveAll_unique [of False "[song1, song2, song1\<lparr>listenDate := 3\<rparr>]" db_one song2]
    by (simp add: open_empty_def)
qed

section \<open>saveSongToDB as an upsert\<close>

lemma index_get_None: "u \<notin> set (map uri rs) \<Longrightarrow> index_get u rs = None"
  by (auto simp: index_get_def find_None_iff)

lemma index_get_unique:
  assumes "distinct (map uri rs)" "f \<in> set rs"
  shows "index_get (uri f) rs = Some f"
  using assms
  by (induction rs) (auto simp: index_get_def)

lemma insort_replace:
  assumes "sorted (map k rs)" "distinct (map k rs)" "f \<in> set rs" "k f' = k f"
  shows "insort_key k f' (filter (\<lambda>r. k r \<noteq> k f) rs) = map (\<lambda>x. if k x = k f then f' else x) rs"
  using assms
proof (induction rs)
  case Nil
  then show ?case by simp
next
  case (Cons a rs)
  show ?case
  proof (cases "k a = k f")
    case True
    with Cons.prems have notin: "k f \<notin> set (map k rs)" by auto
    then have flt: "filter (\<lambda>r. k r \<noteq> k f) rs = rs"
      by (simp add: filter_id_conv) (metis imageI)
    have same: "map (\<lambda>x. if k x = k f then f' else x) rs = rs"
      using notin by (induction rs) auto
    from Cons.prems True have "\<forall>x\<in>set rs. k f' \<le> k x" by auto
    then have "insort_key k f' rs = f' # rs" by (rule insort_is_Cons)
    with True flt same show ?thesis by simp
  next
    case False
    with Cons.prems have fin: "f \<in> set rs" by auto
    with Cons.prems False have lt: "\<not> k f' \<le> k a" by force
    from Cons.prems fin have "insort_key k f' (filter (\<lambda>r. k r \<noteq> k f) rs) = map (\<lambda>x. if k x = k f then f' else x) rs"
      by (intro Cons.IH) auto
    with False lt show ?thesis by simp
  qed
qed

lemma store_put_found:
  assumes inv: "store_inv rs" and f: "f \<in> set rs"
  shows "store_put (f\<lparr>listenDate := t\<rparr>) rs =
         Inr (map (\<lambda>x. if uri x = uri f then x\<lparr>listenDate := t\<rparr> else x) rs)"
proof -
  let ?f' = "f\<lparr>listenDate := t\<rparr>"
  from inv have d1: "distinct (map uid rs)" and d2: "distinct (map uri rs)" and s: "sorted (map uid rs)"
    by (auto simp: store_inv_def)
  have key: "\<And>x. x \<in> set rs \<Longrightarrow> (uid x = uid f) = (x = f)"
    using d1 f by (meson distinct_map inj_on_def)
  have key2: "\<And>x. x \<in> set rs \<Longrightarrow> (uri x = uri f) = (x = f)"
    using d2 f by (meson distinct_map inj_on_def)
  have fresh: "uri ?f' \<notin> set (map uri (filter (\<lambda>r. uid r \<noteq> uid ?f') rs))"
  proof
    assume "uri ?f' \<in> set (map uri (filter (\<lambda>r. uid r \<noteq> uid ?f') rs))"
    then obtain x where "x \<in> set rs" "uid x \<noteq> uid f" "uri x = uri f" by auto
    with key key2 show False by blast
  qed
  have "insort_key uid ?f' (filter (\<lambda>r. uid r \<noteq> uid f) rs) =
        map (\<lambda>x. if uid x = uid f then ?f' else x) rs"
    using s d1 f by (intro insort_replace) auto
  also have "\<dots> = map (\<lambda>x. if uri x = uri f then x\<lparr>listenDate := t\<rparr> else x) rs"
    using key key2 by (intro map_cong) auto
  finally show ?thesis using fresh by (simp add: store_put_def Let_def)
qed

lemma touch_insort:
  "map (\<lambda>x. if uri x = uri r then x\<lparr>listenDate := t\<rparr> else x) (insort_key uid r rs) =
   insort_key uid (r\<lparr>listenDate := t\<rparr>)
     (map (\<lambda>x. if uri x = uri r then x\<lparr>listenDate := t\<rparr> else x) rs)"
  by (induction rs) auto

lemma touch_absent:
  "u \<notin> set (map uri rs) \<Longrightarrow>
   map (\<lambda>x. if uri x = u then x\<lparr>listenDate := t\<rparr> else x) rs = rs"
  by (induction rs) auto

text \<open>
  C1 (as amended). On an open store that satisfies the store invariant: when a row with the
  incoming uri exists, saveSongToDB replaces only that row's listenDate with the incoming
  value and leaves every other field of it, and every other row, as stored; when no row has
  the incoming uri and none has the incoming uid, the full incoming record is inserted as a
  new row; when no row has the incoming uri but a row has the incoming uid, the call is
  rejected with a ConstraintError and the store is unchanged. Saving a new record and then
  the same record with only the timestamp changed adds exactly one row: the record with the
  second timestamp.
\<close>

theorem saveSongToDB_upsert:
  assumes "store_inv (history db)" "\<not> conn_closed db"
  shows
    "(uri r \<in> set (map uri (history db)) \<longrightarrow>
        saveSongToDB db r =
          (db\<lparr>history := map (\<lambda>x. if uri x = uri r then x\<lparr>listenDate := listenDate r\<rparr> else x)
                            (history db)\<rparr>, Resolved ())) \<and>
     (uri r \<notin> set (map uri (history db)) \<and> uid r \<notin> set (map uid (history db)) \<longrightarrow>
        saveSongToDB db r = (db\<lparr>history := insort_key uid r (history db)\<rparr>, Resolved ())) \<and>
     (uri r \<notin> set (map uri (history db)) \<and> uid r \<in> set (map uid (history db)) \<longrightarrow>
        saveSongToDB db r = (db, Rejected ConstraintError)) \<and>
     (uri r \<notin> set (map uri (history db)) \<and> uid r \<notin> set (map uid (history db)) \<longrightarrow>
        history (saveAll db [r, r\<lparr>listenDate := t\<rparr>]) =
          insort_key uid (r\<lparr>listenDate := t\<rparr>) (history db))"
proof -
  let ?rs = "history db"
  have found: "saveSongToDB db r =
      (db\<lparr>history := map (\<lambda>x. if uri x = uri r then x\<lparr>listenDate := listenDate r\<rparr> else x) ?rs\<rparr>,
       Resolved ())" if "uri r \<in> set (map uri ?rs)"
  proof -
    from that obtain f where f: "f \<in> set ?rs" "uri f = uri r" by auto
    from assms(1) have "distinct (map uri ?rs)" by (simp add: store_inv_def)
    with f have "index_get (uri r) ?rs = Some f" by (metis index_get_unique)
    with assms f show ?thesis
      by (simp add: saveSongToDB_def store_put_found)
  qed
  have fresh: "saveSongToDB db r = (db\<lparr>history := insort_key uid r ?rs\<rparr>, Resolved ())"
    if "uri r \<notin> set (map uri ?rs)" "uid r \<notin> set (map uid ?rs)"
    using that assms(2) index_get_None [OF that(1)] by (simp add: saveSongToDB_def store_add_def)
  have clash: "saveSongToDB db r = (db, Rejected ConstraintError)"
    if "uri r \<notin> set (map uri ?rs)" "uid r \<in> set (map uid ?rs)"
    using that assms(2) index_get_None [OF that(1)] by (simp add: saveSongToDB_def store_add_def)
  have twice: "history (saveAll db [r, r\<lparr>listenDate := t\<rparr>]) =
      insort_key uid (r\<lparr>listenDate := t\<rparr>) ?rs"
    if new: "uri r \<notin> set (map uri ?rs)" "uid r \<notin> set (map uid ?rs)"
  proof -
    let ?db1 = "db\<lparr>history := insort_key uid r ?rs\<rparr>"
    let ?r' = "r\<lparr>listenDate := t\<rparr>"
    have inv1: "store_inv (history ?db1)"
      using assms(1) new
      by (simp add: store_inv_def distinct_map_insort_key sorted_insort_key del: set_map)
    have rin: "r \<in> set (history ?db1)" by (simp add: set_insort_key)
    from inv1 have "distinct (map uri (history ?db1))" by (simp add: store_inv_def)
    with rin have "index_get (uri ?r') (history ?db1) = Some r"
      using index_get_unique [of "history ?db1" r] by simp
    moreover have "store_put ?r' (history ?db1) =
        Inr (map (\<lambda>x. if uri x = uri r then x\<lparr>listenDate := t\<rparr> else x) (history ?db1))"
      using store_put_found [OF inv1 rin] .
    ultimately have "history (fst (saveSongToDB ?db1 ?r')) =
        map (\<lambda>x. if uri x = uri r then x\<lparr>listenDate := t\<rparr> else x) (insort_key uid r ?rs)"
      using assms(2) by (simp add: saveSongToDB_def)
    also have "\<dots> = insort_key uid ?r' (map (\<lambda>x. if uri x = uri r then x\<lparr>listenDate := t\<rparr> else x) ?rs)"
      by (rule touch_insort)
    also have "map (\<lambda>x. if uri x = uri r then x\<lparr>listenDate := t\<rparr> else x) ?rs = ?rs"
      using new(1) by (rule touch_absent)
    finally show ?thesis using fresh [OF new] by (simp add: saveAll_def)
  qed
  from found fresh clash twice show ?thesis by blast
qed

lemma db_one_inv: "store_inv (history db_one)"
  by (simp add: db_one_def store_inv_def)

theorem saveSongToDB_upsert_witness:
  "store_inv (history db_one) \<and> \<not> conn_closed db_one \<and>
   saveSongToDB db_one (song2\<lparr>uri := uri song1, listenDate := 2000\<rparr>) =
     (db_one\<lparr>history := [song1\<lparr>listenDate := 2000\<rparr>]\<rparr>, Resolved ()) \<and>
   saveSongToDB db_one song2 = (db_one\<lparr>history := [song1, song2]\<rparr>, Resolved ()) \<and>
   history (saveAll db_one [song2, song2\<lparr>listenDate := 7\<rparr>]) = [song1, song2\<lparr>listenDate := 7\<rparr>] \<and>
   history (saveAll open_empty [song1, song1\<lparr>listenDate := 9\<rparr>]) = [song1\<lparr>listenDate := 9\<rparr>]"
proof -
  have c: "\<not> conn_closed db_one" by (simp add: db_one_def)
  have e: "store_inv (history open_empty)" "\<not> conn_closed open_empty"
    by (simp_all add: open_empty_def store_inv_def)
  show ?thesis
    using saveSongToDB_upsert [OF db_one_inv c, of "song2\<lparr>uri := uri song1, listenDate := 2000\<rparr>" 0]
      saveSongToDB_upsert [OF db_one_inv c, of song2 7]
      saveSongToDB_upsert [OF e, of song1 9] db_one_inv c
    by (simp add: db_one_def open_empty_def song1_def song2_def)
qed

text \<open>
  C1 as stated fails: no row has the incoming uri, yet the record is not inserted, because
  a row with the incoming uid (the primary key) exists.
\<close>

theorem saveSongToDB_insert_counterexample:
  "uri (song2\<lparr>uid := uid song1\<rparr>) \<notin> set (map uri (history db_one)) \<and>
   saveSongToDB db_one (song2\<lparr>uid := uid song1\<rparr>) = (db_one, Rejected ConstraintError) \<and>
   song2\<lparr>uid := uid song1\<rparr> \<notin> set (history (fst (saveSongToDB db_one (song2\<lparr>uid := uid song1\<rparr>))))"
  by (simp add: saveSongToDB_def index_get_def store_add_def db_one_def song1_def song2_def)

section \<open>Deleting\<close>

text \<open>
  C7. On an open connection, deleteSongFromDB of a key that no row has resolves (it is not
  reported as a failure) and leaves the store unchanged; deleting the same uid twice in a
  row, the second call resolves and leaves the store as the first call left it.
\<close>

theorem deleteSongFromDB_missing_key:
  assumes "\<not> conn_closed db"
  shows
    "(u \<notin> set (map uid (history db)) \<longrightarrow>
        deleteSongFromDB db u = (db, Resolved (), [''Deleting song...'', ''Song deleted''])) \<and>
     fst (snd (deleteSongFromDB (fst (deleteSongFromDB db u)) u)) = Resolved () \<and>
     fst (deleteSongFromDB (fst (deleteSongFromDB db u)) u) = fst (deleteSongFromDB db u)"
proof -
  have "store_delete u (history db) = history db" if "u \<notin> set (map uid (history db))"
    using that by (simp add: store_delete_def filter_id_conv) (metis imageI)
  moreover have "store_delete u (store_delete u rs) = store_delete u rs" for rs
    by (simp add: store_delete_def)
  ultimately show ?thesis
    using assms by (simp add: deleteSongFromDB_def)
qed

theorem deleteSongFromDB_missing_key_witness:
  "\<not> conn_closed db_one \<and>
   deleteSongFromDB db_one ''u2'' = (db_one, Resolved (), [''Deleting song...'', ''Song deleted'']) \<and>
   deleteSongFromDB db_one ''u1'' = (open_empty, Resolved (), [''Deleting song...'', ''Song deleted'']) \<and>
   deleteSongFromDB (fst (deleteSongFromDB db_one ''u1'')) ''u1'' =
     (open_empty, Resolved (), [''Deleting song...'', ''Song deleted''])"
proof -
  have c: "\<not> conn_closed db_one" by (simp add: db_one_def)
  have e: "\<not> conn_closed open_empty" by (simp add: open_empty_def)
  have first: "deleteSongFromDB db_one ''u1'' =
      (open_empty, Resolved (), [''Deleting song...'', ''Song deleted''])"
    by (simp add: deleteSongFromDB_def store_delete_def db_one_def open_empty_def song1_def)
  show ?thesis
    using deleteSongFromDB_missing_key [OF c, of "''u2''"]
      deleteSongFromDB_missing_key [OF e, of "''u1''"] c first
    by (simp add: db_one_def open_empty_def song1_def)
qed

section \<open>Sorting\<close>

lemma js_insert_insort_key:
  fixes f :: "'a \<Rightarrow> 'k::linorder"
  assumes "\<And>a b. (cmp a b \<le> 0) = (f a \<le> f b)"
  shows "js_insert cmp x xs = insort_key f x xs"
  by (induction xs) (simp_all add: assms)

lemma js_sort_sort_key:
  fixes f :: "'a \<Rightarrow> 'k::linorder"
  assumes "\<And>a b. (cmp a b \<le> 0) = (f a \<le> f b)"
  shows "js_sort cmp xs = sort_key f xs"
  unfolding js_sort_def sort_key_def
  by (induction xs) (simp_all add: js_insert_insort_key [of cmp f, OF assms])

lemma js_sort_stable:
  fixes f :: "'a \<Rightarrow> 'k::linorder"
  assumes le: "\<And>a b. (cmp a b \<le> 0) = (f a \<le> f b)"
    and eq: "\<And>a b. (cmp a b = 0) = (f a = f b)"
  shows "filter (\<lambda>s. cmp s x = 0) (js_sort cmp xs) = filter (\<lambda>s. cmp s x = 0) xs"
proof -
  have "filter (\<lambda>s. f s = f x) (sort_key f xs) = filter (\<lambda>s. f s = f x) xs"
    by (rule sort_key_stable)
  then show ?thesis
    by (simp add: js_sort_sort_key [of cmp f, OF le] eq)
qed

lemma js_sort_by_number:
  "js_sort (\<lambda>a b. f a - f b) xs = sort_key f xs"
  by (rule js_sort_sort_key) simp

section \<open>Exporting\<close>

text \<open>
  C5. For every non-empty store on an open connection, the export downloads an array that
  holds exactly the stored records, in ascending order of listenDate; the App's current
  sort selection (and its displayed list) has no influence on it.
\<close>

theorem exportHistoryAsFile_sorted:
  assumes "\<not> conn_closed db" "history db \<noteq> []"
  shows
    "\<exists>out. downloaded (exportHistoryAsFile db) = Some out \<and>
           mset out = mset (history db) \<and>
           sorted (map listenDate out) \<and>
           handleExportHistory \<lparr>app_db = Some db, app_songs = shown, sortConfig = cfg\<rparr> =
             exportHistoryAsFile db"
  using assms
  by (simp add: exportHistoryAsFile_def getHistoryFromDB_def handleExportHistory_def
      js_sort_by_number)

theorem exportHistoryAsFile_sorted_witness:
  "\<not> conn_closed db_two \<and> history db_two \<noteq> [] \<and>
   downloaded (exportHistoryAsFile db_two) = Some [song2, song1] \<and>
   handleExportHistory
     \<lparr>app_db = Some db_two, app_songs = [], sortConfig = \<lparr>key = ''name'', ascending = True\<rparr>\<rparr> =
     exportHistoryAsFile db_two"
proof -
  have c: "\<not> conn_closed db_two" and n: "history db_two \<noteq> []"
    by (simp_all add: db_two_def)
  have d: "downloaded (exportHistoryAsFile db_two) = Some [song2, song1]"
    by (simp add: exportHistoryAsFile_def getHistoryFromDB_def js_sort_def db_two_def
        song1_def song2_def)
  from exportHistoryAsFile_sorted [OF c n, of "[]" "\<lparr>key = ''name'', ascending = True\<rparr>"]
  obtain out where "downloaded (exportHistoryAsFile db_two) = Some out"
    and "handleExportHistory
       \<lparr>app_db = Some db_two, app_songs = [], sortConfig = \<lparr>key = ''name'', ascending = True\<rparr>\<rparr> =
       exportHistoryAsFile db_two"
    by blast
  with c n d show ?thesis by simp
qed

text \<open>
  C6 (as amended). The promise returned by exportHistoryAsFile resolves with no value in
  every case. For the empty store on an open connection no file is produced and the
  notification "No history to export" is shown; that notification is shown in no other
  case, so it is the user, not the caller, who can tell the empty store from a successful
  export and from a storage failure.
\<close>

theorem exportHistoryAsFile_empty_notice:
  "returned (exportHistoryAsFile db) = Resolved () \<and>
   (''No history to export'' \<in> set (notified (exportHistoryAsFile db)) \<longleftrightarrow>
      \<not> conn_closed db \<and> history db = []) \<and>
   (\<not> conn_closed db \<and> history db = [] \<longrightarrow>
      exportHistoryAsFile db =
        \<lparr>returned = Resolved (),
         notified = [''Exporting history...'', ''No history to export''],
         downloaded = None\<rparr>)"
  by (simp add: exportHistoryAsFile_def getHistoryFromDB_def)

theorem exportHistoryAsFile_empty_notice_witness:
  "\<not> conn_closed open_empty \<and> history open_empty = [] \<and>
   exportHistoryAsFile open_empty =
     \<lparr>returned = Resolved (),
      notified = [''Exporting history...'', ''No history to export''],
      downloaded = None\<rparr> \<and>
   ''No history to export'' \<notin> set (notified (exportHistoryAsFile db_one)) \<and>
   ''No history to export'' \<notin> set (notified (exportHistoryAsFile (open_empty\<lparr>conn_closed := True\<rparr>)))"
  using exportHistoryAsFile_empty_notice [of open_empty]
    exportHistoryAsFile_empty_notice [of db_one]
    exportHistoryAsFile_empty_notice [of "open_empty\<lparr>conn_closed := True\<rparr>"]
  by (simp add: open_empty_def db_one_def)

text \<open>
  C6 as stated fails: the value returned to the caller is the same for the empty store,
  for a store with a record (whose export downloads a file) and for a closed connection
  (whose export fails).
\<close>

theorem exportHistoryAsFile_result_counterexample:
  "returned (exportHistoryAsFile open_empty) = returned (exportHistoryAsFile db_one) \<and>
   downloaded (exportHistoryAsFile db_one) = Some [song1] \<and>
   returned (exportHistoryAsFile open_empty) =
     returned (exportHistoryAsFile (open_empty\<lparr>conn_closed := True\<rparr>)) \<and>
   notified (exportHistoryAsFile (open_empty\<lparr>conn_closed := True\<rparr>)) =
     [''Exporting history...'', ''Failed to export history'']"
  by (simp add: exportHistoryAsFile_def getHistoryFromDB_def js_sort_def open_empty_def
      db_one_def)

section \<open>sortSongs\<close>

lemma compareSongs_stable:
  fixes collate :: "string \<Rightarrow> 'k::linorder"
  assumes consistent: "key cfg = ''name'' \<or> key cfg = ''album'' \<longrightarrow>
      (\<forall>a b. (localeCompare a b < 0) = (collate a < collate b)) \<and>
      (\<forall>a b. (localeCompare a b = 0) = (collate a = collate b))"
  shows "filter (\<lambda>s. compareSongs localeCompare cfg s x = 0)
           (js_sort (compareSongs localeCompare cfg) songs) =
         filter (\<lambda>s. compareSongs localeCompare cfg s x = 0) songs"
proof -
  consider (name) "key cfg = ''name''"
    | (album) "key cfg \<noteq> ''name''" "key cfg = ''album''"
    | (date) "key cfg \<noteq> ''name''" "key cfg \<noteq> ''album''" "key cfg = ''date''"
    | (duration) "key cfg \<noteq> ''name''" "key cfg \<noteq> ''album''" "key cfg \<noteq> ''date''"
        "key cfg = ''duration''"
    | (other) "key cfg \<noteq> ''name''" "key cfg \<noteq> ''album''" "key cfg \<noteq> ''date''"
        "key cfg \<noteq> ''duration''"
    by blast
  then show ?thesis
  proof cases
    case name
    with consistent have lt: "(localeCompare a b < 0) = (collate a < collate b)"
      and eq: "(localeCompare a b = 0) = (collate a = collate b)" for a b
      by simp_all
    have le: "(localeCompare a b \<le> 0) = (collate a \<le> collate b)" for a b
      using lt [of a b] eq [of a b] by (auto simp: le_less)
    from name have c: "compareSongs localeCompare cfg =
        (\<lambda>a b. of_int (localeCompare (name a) (name b)))"
      by (simp add: compareSongs_def fun_eq_iff)
    show ?thesis unfolding c
      by (rule js_sort_stable [where f = "\<lambda>s. collate (name s)"]) (simp_all add: le eq)
  next
    case album
    with consistent have lt: "(localeCompare a b < 0) = (collate a < collate b)"
      and eq: "(localeCompare a b = 0) = (collate a = collate b)" for a b
      by simp_all
    have le: "(localeCompare a b \<le> 0) = (collate a \<le> collate b)" for a b
      using lt [of a b] eq [of a b] by (auto simp: le_less)
    from album have c: "compareSongs localeCompare cfg =
        (\<lambda>a b. of_int (localeCompare (name_or_empty (album a)) (name_or_empty (album b))))"
      by (simp add: compareSongs_def fun_eq_iff)
    show ?thesis unfolding c
      by (rule js_sort_stable [where f = "\<lambda>s. collate (name_or_empty (album s))"])
        (simp_all add: le eq)
  next
    case date
    then have c: "compareSongs localeCompare cfg = (\<lambda>a b. listenDate a - listenDate b)"
      by (simp add: compareSongs_def fun_eq_iff)
    show ?thesis unfolding c
      by (rule js_sort_stable [where f = listenDate]) simp_all
  next
    case duration
    then have c: "compareSongs localeCompare cfg =
        (\<lambda>a b. milliseconds (duration a) - milliseconds (duration b))"
      by (simp add: compareSongs_def fun_eq_iff)
    show ?thesis unfolding c
      by (rule js_sort_stable [where f = "\<lambda>s. milliseconds (duration s)"]) simp_all
  next
    case other
    then have c: "compareSongs localeCompare cfg = (\<lambda>a b. 0)"
      by (simp add: compareSongs_def fun_eq_iff)
    show ?thesis unfolding c
      by (rule js_sort_stable [where f = "\<lambda>s. ()"]) simp_all
  qed
qed

lemma compareSongs_key:
  "compareSongs localeCompare \<lparr>key = k, ascending = d\<rparr> =
   compareSongs localeCompare \<lparr>key = k, ascending = d'\<rparr>"
  by (simp add: compareSongs_def fun_eq_iff)

text \<open>
  C8. For every list of records and every sort key, sortSongs with ascending = false
  returns the reverse of what it returns with ascending = true. Consequently the records
  that compare equal to any given record appear in the descending result in the reverse of
  their input order: for the keys date and duration always, and for the keys name and album
  when the host's localeCompare is a consistent comparator (it orders strings as some
  collation key does).
\<close>

theorem sortSongs_descending_reverses:
  fixes collate :: "string \<Rightarrow> 'k::linorder"
  shows
    "sortSongs localeCompare songs \<lparr>key = k, ascending = False\<rparr> =
       rev (sortSongs localeCompare songs \<lparr>key = k, ascending = True\<rparr>) \<and>
     ((k \<noteq> ''name'' \<and> k \<noteq> ''album'') \<or>
      ((\<forall>a b. (localeCompare a b < 0) = (collate a < collate b)) \<and>
       (\<forall>a b. (localeCompare a b = 0) = (collate a = collate b))) \<longrightarrow>
      filter (\<lambda>s. compareSongs localeCompare \<lparr>key = k, ascending = False\<rparr> s x = 0)
        (sortSongs localeCompare songs \<lparr>key = k, ascending = False\<rparr>) =
        rev (filter (\<lambda>s. compareSongs localeCompare \<lparr>key = k, ascending = False\<rparr> s x = 0)
          songs))"
proof -
  have "sortSongs localeCompare songs \<lparr>key = k, ascending = False\<rparr> =
       rev (sortSongs localeCompare songs \<lparr>key = k, ascending = True\<rparr>)"
    by (simp add: sortSongs_def compareSongs_key [of _ k False True])
  moreover have "filter (\<lambda>s. compareSongs localeCompare \<lparr>key = k, ascending = False\<rparr> s x = 0)
       (sortSongs localeCompare songs \<lparr>key = k, ascending = False\<rparr>) =
       rev (filter (\<lambda>s. compareSongs localeCompare \<lparr>key = k, ascending = False\<rparr> s x = 0) songs)"
    if "(k \<noteq> ''name'' \<and> k \<noteq> ''album'') \<or>
      ((\<forall>a b. (localeCompare a b < 0) = (collate a < collate b)) \<and>
       (\<forall>a b. (localeCompare a b = 0) = (collate a = collate b)))"
  proof -
    from that have "key \<lparr>key = k, ascending = False\<rparr> = ''name'' \<or>
        key \<lparr>key = k, ascending = False\<rparr> = ''album'' \<longrightarrow>
        (\<forall>a b. (localeCompare a b < 0) = (collate a < collate b)) \<and>
        (\<forall>a b. (localeCompare a b = 0) = (collate a = collate b))"
      by auto
    from compareSongs_stable [OF this, of x songs] show ?thesis
      by (simp add: sortSongs_def rev_filter [symmetric])
  qed
  ultimately show ?thesis by blast
qed

lemma example_durations:
  "milliseconds (duration song1) = 300000" "milliseconds (duration song2) = 60000"
  "milliseconds (duration song3) = 125000" "milliseconds (duration song4) = 60000"
  by (simp_all add: song1_def song2_def song3_def song4_def)

lemma example_names:
  "name song1 = ''Bohemian Rhapsody''" "name song2 = ''Dancing Queen''"
  "name song3 = ''Waterloo''" "name song4 = ''Fernando''"
  by (simp_all add: song1_def song2_def song3_def song4_def)

theorem sortSongs_descending_reverses_witness:
  "sortSongs code_unit_compare [song1, song2, song3, song4] \<lparr>key = ''duration'', ascending = True\<rparr> =
     [song2, song4, song3, song1] \<and>
   sortSongs code_unit_compare [song1, song2, song3, song4] \<lparr>key = ''duration'', ascending = False\<rparr> =
     [song1, song3, song4, song2] \<and>
   filter (\<lambda>s. compareSongs code_unit_compare \<lparr>key = ''duration'', ascending = False\<rparr> s song2 = 0)
     (sortSongs code_unit_compare [song1, song2, song3, song4]
        \<lparr>key = ''duration'', ascending = False\<rparr>) = [song4, song2] \<and>
   (\<forall>a b. (code_unit_compare a b < 0) = (a < b)) \<and>
   (\<forall>a b. (code_unit_compare a b = 0) = (a = b)) \<and>
   sortSongs code_unit_compare [song3, song1, song4] \<lparr>key = ''name'', ascending = False\<rparr> =
     [song3, song4, song1] \<and>
   filter (\<lambda>s. compareSongs code_unit_compare \<lparr>key = ''name'', ascending = False\<rparr> s song4 = 0)
     (sortSongs code_unit_compare [song3, song1, song4]
        \<lparr>key = ''name'', ascending = False\<rparr>) = [song4]"
proof -
  let ?dur = "\<lparr>key = ''duration'', ascending = False\<rparr>"
  let ?nam = "\<lparr>key = ''name'', ascending = False\<rparr>"
  have h1: "\<forall>a b. (code_unit_compare a b < 0) = (id a < id b)"
    and h2: "\<forall>a b. (code_unit_compare a b = 0) = (id a = id b)"
    by (simp_all add: code_unit_compare_def)
  have asc: "sortSongs code_unit_compare [song1, song2, song3, song4]
      \<lparr>key = ''duration'', ascending = True\<rparr> = [song2, song4, song3, song1]"
    by (simp add: sortSongs_def js_sort_def compareSongs_def example_durations)
  have ties: "filter (\<lambda>s. compareSongs code_unit_compare ?dur s song2 = 0)
      [song1, song2, song3, song4] = [song2, song4]"
    by (simp add: compareSongs_def example_durations)
  note th = sortSongs_descending_reverses [of code_unit_compare
      "[song1, song2, song3, song4]" "''duration''" id song2]
  from th have d: "sortSongs code_unit_compare [song1, song2, song3, song4] ?dur =
      rev (sortSongs code_unit_compare [song1, song2, song3, song4]
        \<lparr>key = ''duration'', ascending = True\<rparr>)"
    by (rule conjunct1)
  have numeric: "(''duration'' \<noteq> ''name'' \<and> ''duration'' \<noteq> ''album'') \<or>
      ((\<forall>a b. (code_unit_compare a b < 0) = (id a < id b)) \<and>
       (\<forall>a b. (code_unit_compare a b = 0) = (id a = id b)))"
    by simp
  have t: "filter (\<lambda>s. compareSongs code_unit_compare ?dur s song2 = 0)
      (sortSongs code_unit_compare [song1, song2, song3, song4] ?dur) =
      rev (filter (\<lambda>s. compareSongs code_unit_compare ?dur s song2 = 0)
        [song1, song2, song3, song4])"
    by (rule th [THEN conjunct2, THEN mp, OF numeric])
  have desc: "sortSongs code_unit_compare [song1, song2, song3, song4] ?dur =
      [song1, song3, song4, song2]"
    unfolding d asc by simp
  have tie: "filter (\<lambda>s. compareSongs code_unit_compare ?dur s song2 = 0)
      (sortSongs code_unit_compare [song1, song2, song3, song4] ?dur) = [song4, song2]"
    unfolding t ties by simp
  have nasc: "sortSongs code_unit_compare [song3, song1, song4]
      \<lparr>key = ''name'', ascending = True\<rparr> = [song1, song4, song3]"
    by (simp add: sortSongs_def js_sort_def compareSongs_def example_names
        code_unit_compare_def)
  have nties: "filter (\<lambda>s. compareSongs code_unit_compare ?nam s song4 = 0)
      [song3, song1, song4] = [song4]"
    by (simp add: compareSongs_def example_names code_unit_compare_def)
  note tn = sortSongs_descending_reverses [of code_unit_compare
      "[song3, song1, song4]" "''name''" id song4]
  from tn have nd: "sortSongs code_unit_compare [song3, song1, song4] ?nam =
      rev (sortSongs code_unit_compare [song3, song1, song4]
        \<lparr>key = ''name'', ascending = True\<rparr>)"
    by (rule conjunct1)
  from h1 h2 have consistent: "(''name'' \<noteq> ''name'' \<and> ''name'' \<noteq> ''album'') \<or>
      ((\<forall>a b. (code_unit_compare a b < 0) = (id a < id b)) \<and>
       (\<forall>a b. (code_unit_compare a b = 0) = (id a = id b)))"
    by (intro disjI2 conjI)
  have nt: "filter (\<lambda>s. compareSongs code_unit_compare ?nam s song4 = 0)
      (sortSongs code_unit_compare [song3, song1, song4] ?nam) =
      rev (filter (\<lambda>s. compareSongs code_unit_compare ?nam s song4 = 0) [song3, song1, song4])"
    by (rule tn [THEN conjunct2, THEN mp, OF consistent])
  have ndesc: "sortSongs code_unit_compare [song3, song1, song4] ?nam = [song3, song4, song1]"
    unfolding nd nasc by simp
  have ntie: "filter (\<lambda>s. compareSongs code_unit_compare ?nam s song4 = 0)
      (sortSongs code_unit_compare [song3, song1, song4] ?nam) = [song4]"
    unfolding nt nties by simp
  have g1: "\<forall>a b. (code_unit_compare a b < 0) = (a < b)"
    and g2: "\<forall>a b. (code_unit_compare a b = 0) = (a = b)"
    using h1 h2 by simp_all
  from asc desc tie g1 g2 ndesc ntie show ?thesis by (intro conjI)
qed

section \<open>Filtering\<close>

lemma js_includes_sublist: "js_includes s q = sublist q s"
  by (induction s) (simp_all add: sublist_Cons_right)

lemma songMatches_spec:
  "songMatches toLowerCase (toLowerCase q) = spec_matches toLowerCase q"
  by (rule ext)
    (auto simp: songMatches_def spec_matches_def ci_substring_def js_includes_sublist
      list_ex_iff split: option.splits)

text \<open>
  C9. handleSearchChange keeps exactly the records for which the query is a
  case-insensitive substring of the title, of the album name or of some artist's name;
  the empty query (lower-casing the empty string gives the empty string) keeps every record.
\<close>

theorem handleSearchChange_filter:
  "handleSearchChange toLowerCase songs q = filter (spec_matches toLowerCase q) songs \<and>
   (toLowerCase [] = [] \<longrightarrow> handleSearchChange toLowerCase songs [] = songs)"
  by (simp add: handleSearchChange_def songMatches_spec)
    (simp add: songMatches_def js_includes_sublist)

theorem handleSearchChange_filter_witness:
  "ascii_toLowerCase [] = [] \<and>
   handleSearchChange ascii_toLowerCase [song1, song3] ''Rhap'' = [song1] \<and>
   handleSearchChange ascii_toLowerCase [song1, song3] ''OPERA'' = [song1] \<and>
   handleSearchChange ascii_toLowerCase [song1, song3] ''que'' = [song1] \<and>
   handleSearchChange ascii_toLowerCase [song1, song3] ''abba'' = [] \<and>
   handleSearchChange ascii_toLowerCase [song1, song3] [] = [song1, song3] \<and>
   filter (spec_matches ascii_toLowerCase ''que'') [song1, song3] = [song1]"
proof -
  have e: "ascii_toLowerCase [] = []" by (simp add: ascii_toLowerCase_def)
  have n: "ascii_toLowerCase (name song1) = ''bohemian rhapsody''"
    "ascii_toLowerCase (name song3) = ''waterloo''"
    "ascii_toLowerCase ''A Night at the Opera'' = ''a night at the opera''"
    "ascii_toLowerCase ''Queen'' = ''queen''"
    "ascii_toLowerCase ''Rhap'' = ''rhap''"
    "ascii_toLowerCase ''OPERA'' = ''opera''"
    "ascii_toLowerCase ''que'' = ''que''"
    "ascii_toLowerCase ''abba'' = ''abba''"
    by (simp_all add: ascii_toLowerCase_def ascii_lower_def song1_def song3_def)
  have f: "album_name (album song1) = Some ''A Night at the Opera''"
    "album_name (album song3) = None"
    "artists song1 = [\<lparr>artist_uri = ''spotify:artist:q'', artist_name = ''Queen''\<rparr>]"
    "artists song3 = []"
    by (simp_all add: song1_def song3_def)
  have r: "handleSearchChange ascii_toLowerCase [song1, song3] ''Rhap'' = [song1]"
    "handleSearchChange ascii_toLowerCase [song1, song3] ''OPERA'' = [song1]"
    "handleSearchChange ascii_toLowerCase [song1, song3] ''que'' = [song1]"
    "handleSearchChange ascii_toLowerCase [song1, song3] ''abba'' = []"
    by (simp_all add: handleSearchChange_def songMatches_def n f)
  show ?thesis
    using handleSearchChange_filter [of ascii_toLowerCase "[song1, song3]" "''que''"]
      handleSearchChange_filter [of ascii_toLowerCase "[song1, song3]" "[]"] e r
    by simp
qed

section \<open>isValidSong\<close>

lemma song_json_valid: "isValidSong (song_json u v (JNum ms) (JNum date)) = Inr True"
  by (simp add: isValidSong_def song_json_def get_prop_def opt_prop_def artist_ok_def)

lemma song_of_song_json:
  "song_of_json (song_json u v (JNum ms) (JNum date)) =
     \<lparr>uid = u, uri = v, name = ''Waterloo'', duration = \<lparr>milliseconds = ms\<rparr>,
      album = \<lparr>album_name = Some ''Waterloo'', album_uri = Some ''spotify:album:w''\<rparr>,
      artists = [\<lparr>artist_uri = ''spotify:artist:abba'', artist_name = ''ABBA''\<rparr>],
      metadata = JObj [], images = [], listenDate = date\<rparr>"
  by (simp add: song_of_json_def song_json_def get_prop_def opt_prop_def str_of_def num_of_def
      arr_of_def)

lemma no_duration_invalid: "isValidSong (song_json_no_duration u v) = Inr False"
  by (simp add: isValidSong_def song_json_no_duration_def get_prop_def opt_prop_def)

text \<open>
  C10. isValidSong accepts any numeric value for duration.milliseconds and for listenDate:
  an object that is well typed otherwise is valid whatever the two numbers are (negative
  or not an integer, for instance), and importing it into the empty store adds the row
  with that duration and notifies "History imported".
\<close>

theorem isValidSong_any_number:
  "isValidSong (song_json u v (JNum ms) (JNum date)) = Inr True \<and>
   milliseconds (duration (song_of_json (song_json u v (JNum ms) (JNum date)))) = ms \<and>
   importHistoryAsFile open_empty (Some (Some (JArr [song_json u v (JNum ms) (JNum date)]))) =
     (open_empty\<lparr>history := [song_of_json (song_json u v (JNum ms) (JNum date))]\<rparr>,
      Resolved (), [''Importing history...'', ''History imported''])"
  by (simp add: song_json_valid importHistoryAsFile_def iterate_def store_add_def open_empty_def)
    (simp add: song_of_song_json)

theorem isValidSong_any_number_witness:
  "isValidSong (song_json ''u3'' ''spotify:track:c'' (JNum (- 7 / 2)) (JNum 700)) = Inr True \<and>
   milliseconds (duration (song_of_json
     (song_json ''u3'' ''spotify:track:c'' (JNum (- 7 / 2)) (JNum 700)))) = - 7 / 2 \<and>
   snd (snd (importHistoryAsFile open_empty
     (Some (Some (JArr [song_json ''u3'' ''spotify:track:c'' (JNum (- 7 / 2)) (JNum 700)]))))) =
     [''Importing history...'', ''History imported'']"
  using isValidSong_any_number [of "''u3''" "''spotify:track:c''" "- 7 / 2" 700]
  by simp

section \<open>Importing\<close>

lemma store_add_Inr:
  "store_add s rs = Inr rs' \<Longrightarrow>
   set rs' = insert s (set rs) \<and> uri s \<notin> set (map uri rs) \<and> uid s \<notin> set (map uid rs)"
  by (auto simp: store_add_def set_insort_key split: if_splits)

lemma run_adds_superset: "run_adds queued rs = Committed rs' \<Longrightarrow> set rs \<subseteq> set rs'"
proof (induction queued arbitrary: rs)
  case Nil
  then show ?case by simp
next
  case (Cons a queued)
  then obtain rs1 where a: "store_add a rs = Inr rs1" and r: "run_adds queued rs1 = Committed rs'"
    by (auto split: sum.splits)
  from a have "set rs \<subseteq> set rs1" by (auto dest: store_add_Inr)
  with Cons.IH [OF r] show ?case by blast
qed

lemma run_adds_conflict:
  assumes "s \<in> set queued" "uri s \<in> set (map uri rs)"
  shows "\<exists>n. run_adds queued rs = Aborted (Suc n)"
  using assms
proof (induction queued arbitrary: rs)
  case Nil
  then show ?case by simp
next
  case (Cons a queued)
  show ?case
  proof (cases "store_add a rs")
    case (Inl e)
    then show ?thesis by simp
  next
    case (Inr rs1)
    then have fresh: "uri a \<notin> set (map uri rs)" and sub: "set rs1 = insert a (set rs)"
      by (auto dest: store_add_Inr)
    with Cons.prems have "s \<in> set queued" by auto
    moreover from sub Cons.prems(2) have "uri s \<in> set (map uri rs1)" by auto
    ultimately have "\<exists>n. run_adds queued rs1 = Aborted (Suc n)" by (rule Cons.IH)
    with Inr show ?thesis by simp
  qed
qed

text \<open>
  C3 fails on the code. The document is a valid record followed by a record without its
  duration: the import notifies a failure, but the valid record before the invalid one
  has been added to the store.
\<close>

theorem importHistoryAsFile_partial_commit:
  "importHistoryAsFile open_empty
     (Some (Some (JArr [song_json ''u3'' ''spotify:track:c'' (JNum 125000) (JNum 700),
                        song_json_no_duration ''u5'' ''spotify:track:e'']))) =
     (open_empty\<lparr>history :=
        [song_of_json (song_json ''u3'' ''spotify:track:c'' (JNum 125000) (JNum 700))]\<rparr>,
      Resolved (), [''Importing history...'', ''Failed to import history''])"
  by (simp add: importHistoryAsFile_def iterate_def song_json_valid no_duration_invalid
      store_add_def open_empty_def)

text \<open>
  C4 (as amended). An import never overwrites or removes a stored row: every row of the
  store is still there afterwards, with all its fields. When the loop queues an element
  whose uri a stored row already has (the connection is open and no earlier element of the
  document is invalid), its add fails with a ConstraintError and the whole transaction is
  aborted: no row of the document is added, and the only report is the notification
  "Failed to import history" (shown once or more), the same as for any other failure.
\<close>

theorem importHistoryAsFile_conflict:
  assumes "\<not> conn_closed db" "iterate doc = Inr elems" "import_loop elems = (thrown, queued)"
    and "s \<in> set queued" "uri s \<in> set (map uri (history db))"
  shows
    "(\<exists>n. importHistoryAsFile db (Some (Some doc)) =
         (db, Resolved (),
          ''Importing history...'' # replicate (Suc n) ''Failed to import history'')) \<and>
     set (history db) \<subseteq> set (history (fst (importHistoryAsFile db file)))"
proof -
  obtain n where n: "run_adds queued (history db) = Aborted (Suc n)"
    using run_adds_conflict [OF assms(4,5)] by blast
  have "\<exists>n. importHistoryAsFile db (Some (Some doc)) =
       (db, Resolved (), ''Importing history...'' # replicate (Suc n) ''Failed to import history'')"
  proof (cases thrown)
    case None
    with assms(1-3) n have "importHistoryAsFile db (Some (Some doc)) =
        (db, Resolved (), ''Importing history...'' # replicate (Suc n) ''Failed to import history'')"
      by (simp add: importHistoryAsFile_def)
    then show ?thesis by blast
  next
    case (Some e)
    with assms(1-3) n have "importHistoryAsFile db (Some (Some doc)) =
        (db, Resolved (), ''Importing history...'' # replicate (Suc 0) ''Failed to import history'')"
      by (simp add: importHistoryAsFile_def)
    then show ?thesis by blast
  qed
  moreover have "set (history db) \<subseteq> set (history (fst (importHistoryAsFile db file)))"
    by (auto simp: importHistoryAsFile_def
        split: option.splits sum.splits prod.splits txn_result.splits
        dest: run_adds_superset)
  ultimately show ?thesis by blast
qed

theorem importHistoryAsFile_conflict_witness:
  "\<not> conn_closed db_one \<and>
   iterate doc_conflict =
     Inr [song_json ''u3'' ''spotify:track:c'' (JNum 125000) (JNum 700),
          song_json ''u9'' ''spotify:track:a'' (JNum 1000) (JNum 800),
          song_json ''u7'' ''spotify:track:g'' (JNum 2000) (JNum 900)] \<and>
   import_loop [song_json ''u3'' ''spotify:track:c'' (JNum 125000) (JNum 700),
                song_json ''u9'' ''spotify:track:a'' (JNum 1000) (JNum 800),
                song_json ''u7'' ''spotify:track:g'' (JNum 2000) (JNum 900)] =
     (None, [song_of_json (song_json ''u3'' ''spotify:track:c'' (JNum 125000) (JNum 700)),
             song_of_json (song_json ''u9'' ''spotify:track:a'' (JNum 1000) (JNum 800)),
             song_of_json (song_json ''u7'' ''spotify:track:g'' (JNum 2000) (JNum 900))]) \<and>
   uri (song_of_json (song_json ''u9'' ''spotify:track:a'' (JNum 1000) (JNum 800))) \<in>
     set (map uri (history db_one)) \<and>
   (\<exists>n. importHistoryAsFile db_one (Some (Some doc_conflict)) =
      (db_one, Resolved (),
       ''Importing history...'' # replicate (Suc n) ''Failed to import history'')) \<and>
   set (history db_one) \<subseteq> set (history (fst (importHistoryAsFile db_one None)))"
proof -
  let ?e3 = "song_json ''u3'' ''spotify:track:c'' (JNum 125000) (JNum 700)"
  let ?e9 = "song_json ''u9'' ''spotify:track:a'' (JNum 1000) (JNum 800)"
  let ?e7 = "song_json ''u7'' ''spotify:track:g'' (JNum 2000) (JNum 900)"
  have c: "\<not> conn_closed db_one" by (simp add: db_one_def)
  have i: "iterate doc_conflict = Inr [?e3, ?e9, ?e7]"
    by (simp add: iterate_def doc_conflict_def)
  have l: "import_loop [?e3, ?e9, ?e7] =
      (None, [song_of_json ?e3, song_of_json ?e9, song_of_json ?e7])"
    by (simp add: song_json_valid)
  have m: "song_of_json ?e9 \<in> set [song_of_json ?e3, song_of_json ?e9, song_of_json ?e7]"
    by simp
  have u: "uri (song_of_json ?e9) \<in> set (map uri (history db_one))"
    by (simp add: song_of_song_json db_one_def song1_def)
  from importHistoryAsFile_conflict [OF c i l m u, of None] c i l u
  show ?thesis by blast
qed

text \<open>
  C4 as stated fails: the conflicting row is not skipped while the rest is imported. The
  first object of the document is valid and conflicts with nothing, yet it is not in the
  store afterwards, and the only report is the generic failure notification (once for the
  failed add, once for the add that was still pending).
\<close>

theorem importHistoryAsFile_skip_counterexample:
  "isValidSong (song_json ''u3'' ''spotify:track:c'' (JNum 125000) (JNum 700)) = Inr True \<and>
   uri (song_of_json (song_json ''u3'' ''spotify:track:c'' (JNum 125000) (JNum 700))) \<notin>
     set (map uri (history db_one)) \<and>
   uid (song_of_json (song_json ''u3'' ''spotify:track:c'' (JNum 125000) (JNum 700))) \<notin>
     set (map uid (history db_one)) \<and>
   importHistoryAsFile db_one (Some (Some doc_conflict)) =
     (db_one, Resolved (),
      [''Importing history...'', ''Failed to import history'', ''Failed to import history'']) \<and>
   song_of_json (song_json ''u3'' ''spotify:track:c'' (JNum 125000) (JNum 700)) \<notin>
     set (history (fst (importHistoryAsFile db_one (Some (Some doc_conflict)))))"
proof -
  let ?e3 = "song_json ''u3'' ''spotify:track:c'' (JNum 125000) (JNum 700)"
  let ?e9 = "song_json ''u9'' ''spotify:track:a'' (JNum 1000) (JNum 800)"
  have a3: "store_add (song_of_json ?e3) [song1] = Inr [song1, song_of_json ?e3]"
    by (simp add: store_add_def song_of_song_json song1_def)
  have a9: "store_add (song_of_json ?e9) [song1, song_of_json ?e3] = Inl ConstraintError"
    by (simp add: store_add_def song_of_song_json song1_def)
  have r: "importHistoryAsFile db_one (Some (Some doc_conflict)) =
     (db_one, Resolved (),
      [''Importing history...'', ''Failed to import history'', ''Failed to import history''])"
    by (simp add: importHistoryAsFile_def iterate_def doc_conflict_def song_json_valid
        db_one_def a3 a9)
  have n: "song_of_json ?e3 \<notin> set (history db_one)"
    by (simp add: song_of_song_json db_one_def song1_def)
  have f: "uri (song_of_json ?e3) \<notin> set (map uri (history db_one))"
    "uid (song_of_json ?e3) \<notin> set (map uid (history db_one))"
    by (simp_all add: song_of_song_json db_one_def song1_def)
  from r n f show ?thesis by (simp add: song_json_valid)
qed

end
